theory Spec2Isabelle
  imports Main "HOL-Library.Word"
begin

unbundle bit_operations_syntax

section \<open>Go values used by the scheduler\<close>

text \<open>
  The binary is built for a 64-bit target, so Go's \<open>int\<close> is a 64-bit two's complement
  integer, as is \<open>time.Duration\<close> (an \<open>int64\<close> count of nanoseconds). Arithmetic wraps;
  comparisons and the builtin \<open>min\<close> are signed.
\<close>

type_synonym go_int = "64 word"
type_synonym Duration = "64 word"
type_synonym byte = "8 word"
type_synonym Time = nat

datatype panic = NegativeShiftAmount

definition go_lt :: "go_int \<Rightarrow> go_int \<Rightarrow> bool" where
  "go_lt a b = (sint a < sint b)"

definition go_min :: "go_int \<Rightarrow> go_int \<Rightarrow> go_int" where
  "go_min a b = (if go_lt b a then b else a)"

text \<open>
  \<open>x << n\<close> with a signed count: a run-time panic when the count is negative, otherwise
  \<open>x\<close> shifted left \<open>n\<close> times by one, without an upper limit on \<open>n\<close> (the bits that
  leave the 64-bit value are lost).
\<close>

definition go_shl :: "go_int \<Rightarrow> go_int \<Rightarrow> panic + go_int" where
  "go_shl x n = (if sint n < 0 then Inl NegativeShiftAmount else Inr (push_bit (unat n) x))"

section \<open>crypto/sha256 and encoding/hex\<close>

text \<open>
  The two library calls of \<open>state.Hash\<close>. SHA-256 follows FIPS 180-4; the \<open>hash.Hash\<close>
  value returned by \<open>sha256.New\<close> is modelled by the bytes written to it so far, which is
  what its \<open>Write\<close>/\<open>Sum\<close> contract exposes.
\<close>

type_synonym w32 = "32 word"

definition rotr :: "nat \<Rightarrow> w32 \<Rightarrow> w32" where
  "rotr n x = drop_bit n x OR push_bit (32 - n) x"

definition Ch :: "w32 \<Rightarrow> w32 \<Rightarrow> w32 \<Rightarrow> w32" where
  "Ch x y z = (x AND y) XOR (NOT x AND z)"

definition Maj :: "w32 \<Rightarrow> w32 \<Rightarrow> w32 \<Rightarrow> w32" where
  "Maj x y z = (x AND y) XOR (x AND z) XOR (y AND z)"

definition bsig0 :: "w32 \<Rightarrow> w32" where
  "bsig0 x = rotr 2 x XOR rotr 13 x XOR rotr 22 x"

definition bsig1 :: "w32 \<Rightarrow> w32" where
  "bsig1 x = rotr 6 x XOR rotr 11 x XOR rotr 25 x"

definition ssig0 :: "w32 \<Rightarrow> w32" where
  "ssig0 x = rotr 7 x XOR rotr 18 x XOR drop_bit 3 x"

definition ssig1 :: "w32 \<Rightarrow> w32" where
  "ssig1 x = rotr 17 x XOR rotr 19 x XOR drop_bit 10 x"

text \<open>
  The round constants (the first 32 bits of the fractional parts of the cube roots of the
  first 64 primes) and the initial hash value (likewise, of the square roots of the first
  8 primes).
\<close>

definition sha256_K :: "w32 list" where
  "sha256_K =
   [1116352408, 1899447441, 3049323471, 3921009573, 961987163, 1508970993, 2453635748, 2870763221,
    3624381080, 310598401, 607225278, 1426881987, 1925078388, 2162078206, 2614888103, 3248222580,
    3835390401, 4022224774, 264347078, 604807628, 770255983, 1249150122, 1555081692, 1996064986,
    2554220882, 2821834349, 2952996808, 3210313671, 3336571891, 3584528711, 113926993, 338241895,
    666307205, 773529912, 1294757372, 1396182291, 1695183700, 1986661051, 2177026350, 2456956037,
    2730485921, 2820302411, 3259730800, 3345764771, 3516065817, 3600352804, 4094571909, 275423344,
    430227734, 506948616, 659060556, 883997877, 958139571, 1322822218, 1537002063, 1747873779,
    1955562222, 2024104815, 2227730452, 2361852424, 2428436474, 2756734187, 3204031479, 3329325298]"

type_synonym sha256_state = "w32 \<times> w32 \<times> w32 \<times> w32 \<times> w32 \<times> w32 \<times> w32 \<times> w32"

definition sha256_init :: sha256_state where
  "sha256_init =
   (1779033703, 3144134277, 1013904242, 2773480762, 1359893119, 2600822924, 528734635, 1541459225)"

definition be32 :: "byte list \<Rightarrow> w32" where
  "be32 bs = foldl (\<lambda>acc b. push_bit 8 acc OR ucast b) 0 (take 4 bs)"

definition be32_bytes :: "w32 \<Rightarrow> byte list" where
  "be32_bytes w = [ucast (drop_bit 24 w), ucast (drop_bit 16 w), ucast (drop_bit 8 w), ucast w]"

definition be64_bytes :: "64 word \<Rightarrow> byte list" where
  "be64_bytes w = map (\<lambda>i. ucast (drop_bit (8 * i) w)) [7, 6, 5, 4, 3, 2, 1, 0]"

definition sha256_pad :: "byte list \<Rightarrow> byte list" where
  "sha256_pad m =
     m @ [0x80] @ replicate ((119 - length m mod 64) mod 64) 0 @ be64_bytes (of_nat (8 * length m))"

function chunks :: "nat \<Rightarrow> 'a list \<Rightarrow> 'a list list" where
  "chunks n xs = (if n = 0 \<or> length xs < n then [] else take n xs # chunks n (drop n xs))"
  by pat_completeness auto
termination
  by (relation "measure (\<lambda>(n, xs). length xs)") auto

definition sha256_schedule :: "byte list \<Rightarrow> w32 list" where
  "sha256_schedule block =
     fold (\<lambda>t w. w @ [ssig1 (w ! (t - 2)) + w ! (t - 7) + ssig0 (w ! (t - 15)) + w ! (t - 16)])
          [16 ..< 64] (map be32 (chunks 4 block))"

definition sha256_round :: "w32 \<times> w32 \<Rightarrow> sha256_state \<Rightarrow> sha256_state" where
  "sha256_round kw s =
     (case s of (a, b, c, d, e, f, g, h) \<Rightarrow>
        let t1 = h + bsig1 e + Ch e f g + fst kw + snd kw;
            t2 = bsig0 a + Maj a b c
        in (t1 + t2, a, b, c, d + t1, e, f, g))"

definition sha256_add :: "sha256_state \<Rightarrow> sha256_state \<Rightarrow> sha256_state" where
  "sha256_add s t =
     (case s of (a, b, c, d, e, f, g, h) \<Rightarrow>
      case t of (a', b', c', d', e', f', g', h') \<Rightarrow>
        (a + a', b + b', c + c', d + d', e + e', f + f', g + g', h + h'))"

definition sha256_block :: "byte list \<Rightarrow> sha256_state \<Rightarrow> sha256_state" where
  "sha256_block block s = sha256_add s (fold sha256_round (zip sha256_K (sha256_schedule block)) s)"

definition sha256_digest :: "sha256_state \<Rightarrow> byte list" where
  "sha256_digest s =
     (case s of (a, b, c, d, e, f, g, h) \<Rightarrow> concat (map be32_bytes [a, b, c, d, e, f, g, h]))"

definition Sum256 :: "byte list \<Rightarrow> byte list" where
  "Sum256 m = sha256_digest (fold sha256_block (chunks 64 (sha256_pad m)) sha256_init)"

text \<open>The running hash: \<open>New\<close>, \<open>Write\<close> (adds data), \<open>Sum b\<close> (appends the digest to \<open>b\<close>).\<close>

type_synonym hasher = "byte list"

definition sha256_New :: hasher where
  "sha256_New = []"

definition hasher_Write :: "hasher \<Rightarrow> byte list \<Rightarrow> hasher" where
  "hasher_Write h p = h @ p"

definition hasher_Sum :: "hasher \<Rightarrow> byte list \<Rightarrow> byte list" where
  "hasher_Sum h b = b @ Sum256 h"

definition hextable :: string where
  "hextable = ''0123456789abcdef''"

definition EncodeToString :: "byte list \<Rightarrow> string" where
  "EncodeToString src =
     concat (map (\<lambda>v. [hextable ! unat (drop_bit 4 v), hextable ! unat (v AND 0x0f)]) src)"

definition bytes_of_string :: "string \<Rightarrow> byte list" where
  "bytes_of_string s = map of_char s"

section \<open>internal/state: the condition hash\<close>

text \<open>
  \<open>Hash\<close> slices the 64-character hex string with \<open>[:16]\<close>; a Go slice expression panics
  when the string is shorter than the bound, which lemma \<open>hex_digest_length\<close> below rules
  out, so the slice is \<open>take 16\<close>.
\<close>

definition Hash :: "string \<Rightarrow> string \<Rightarrow> string" where
  "Hash title message =
     (let h = sha256_New;
          h = hasher_Write h (bytes_of_string title);
          h = hasher_Write h (bytes_of_string message)
      in take 16 (EncodeToString (hasher_Sum h [])))"

section \<open>internal/check: results and alerts\<close>

text \<open>
  \<open>Priority\<close> is a Go \<open>int\<close> with four named values. The fields of \<open>Alert\<close> that share
  a name with a field of \<open>CheckResult\<close> carry the prefix \<open>A\<close>.
\<close>

type_synonym Priority = go_int

definition PriorityLow :: Priority where "PriorityLow = 0"
definition PriorityNormal :: Priority where "PriorityNormal = 1"
definition PriorityHigh :: Priority where "PriorityHigh = 2"
definition PriorityUrgent :: Priority where "PriorityUrgent = 3"

record CheckResult =
  ShouldAlert :: bool
  Title :: string
  Message :: string
  Priority :: Priority
  Tags :: "string list"
  Metadata :: "string \<rightharpoonup> string"

record Alert =
  CheckName :: string
  ATitle :: string
  AMessage :: string
  APriority :: Priority
  ATags :: "string list"
  AMetadata :: "string \<rightharpoonup> string"
  Timestamp :: Time

text \<open>\<open>time.Now()\<close> is an input: the reading of the clock is passed in.\<close>

definition NewAlertFromResult :: "string \<Rightarrow> CheckResult \<Rightarrow> Time \<Rightarrow> Alert" where
  "NewAlertFromResult checkName result now =
     \<lparr>CheckName = checkName,
      ATitle = Title result,
      AMessage = Message result,
      APriority = Priority result,
      ATags = Tags result,
      AMetadata = Metadata result,
      Timestamp = now\<rparr>"

section \<open>Errors\<close>

text \<open>
  Go \<open>error\<close> values: \<open>sql.ErrNoRows\<close>, an opaque error with its text, the wrapping
  \<open>fmt.Errorf("<prefix>: %w", err)\<close>, and the notifier package's \<open>MultiError\<close>.
  \<open>None\<close> of type \<open>error option\<close> is the \<open>nil\<close> error.
\<close>

datatype error =
    ErrNoRows
  | ErrorString string
  | Errorf string error
  | MultiError "error list"

section \<open>internal/state: the in-memory store\<close>

record alertRecord =
  hash :: string
  alertedAt :: Time

text \<open>
  \<open>Memory.alerts\<close>; the mutex is not modelled (each method holds it for its whole body).
  Every method of a store takes the store and returns it with its result, so that what a
  method leaves behind is part of its value.
\<close>

type_synonym Memory = "string \<rightharpoonup> alertRecord"

definition NewMemory :: Memory where
  "NewMemory = Map.empty"

definition Memory_ShouldAlert :: "Memory \<Rightarrow> string \<Rightarrow> string \<Rightarrow> bool \<times> Memory" where
  "Memory_ShouldAlert m checkName resultHash =
     (case m checkName of
        None \<Rightarrow> (True, m)
      | Some record \<Rightarrow> (hash record \<noteq> resultHash, m))"

definition Memory_MarkAlerted ::
  "Memory \<Rightarrow> string \<Rightarrow> string \<Rightarrow> Time \<Rightarrow> error option \<times> Memory" where
  "Memory_MarkAlerted m checkName resultHash now =
     (None, m(checkName \<mapsto> \<lparr>hash = resultHash, alertedAt = now\<rparr>))"

definition Memory_Clear :: "Memory \<Rightarrow> string \<Rightarrow> error option \<times> Memory" where
  "Memory_Clear m checkName = (None, m(checkName := None))"

section \<open>internal/state: the SQLite store\<close>

text \<open>
  The database behind \<open>SQLite.db\<close>: the rows of table \<open>alert_state\<close>, keyed by its
  primary key \<open>check_name\<close>, each holding \<open>(result_hash, alerted_at)\<close>; and what the
  driver answers, which the code branches on: \<open>query_err\<close> is the error that
  \<open>QueryRow(...).Scan\<close> reports instead of reading (a closed handle, an unreadable or
  locked file), \<open>exec_err\<close> the error that \<open>Exec\<close> reports instead of writing (the same,
  or a read-only or full disk). A statement that reports an error changes no row.

  The driver answers each statement on its own. One execution of a check issues at most
  one query (\<open>ShouldAlert\<close>) and at most one exec (\<open>MarkAlerted\<close> or \<open>Clear\<close>), so the
  two fields are the answers to the statements of the execution at hand; no method changes
  them, and \<open>with_driver\<close> below puts in the answers for the next execution.
\<close>

record SQLite =
  alert_state :: "string \<rightharpoonup> string \<times> Time"
  query_err :: "error option"
  exec_err :: "error option"

text \<open>\<open>SELECT result_hash FROM alert_state WHERE check_name = ?\<close>, scanned into a string.\<close>

definition select_result_hash :: "SQLite \<Rightarrow> string \<Rightarrow> error + string" where
  "select_result_hash s checkName =
     (case query_err s of
        Some e \<Rightarrow> Inl e
      | None \<Rightarrow>
          (case alert_state s checkName of
             None \<Rightarrow> Inl ErrNoRows
           | Some row \<Rightarrow> Inr (fst row)))"

definition SQLite_ShouldAlert :: "SQLite \<Rightarrow> string \<Rightarrow> string \<Rightarrow> bool \<times> SQLite" where
  "SQLite_ShouldAlert s checkName resultHash =
     (case select_result_hash s checkName of
        Inl err \<Rightarrow> (if err = ErrNoRows then (True, s) else (True, s))
      | Inr storedHash \<Rightarrow> (storedHash \<noteq> resultHash, s))"

text \<open>\<open>INSERT ... ON CONFLICT(check_name) DO UPDATE SET ...\<close>\<close>

definition SQLite_MarkAlerted ::
  "SQLite \<Rightarrow> string \<Rightarrow> string \<Rightarrow> Time \<Rightarrow> error option \<times> SQLite" where
  "SQLite_MarkAlerted s checkName resultHash now =
     (case exec_err s of
        Some err \<Rightarrow> (Some (Errorf ''upsert alert state'' err), s)
      | None \<Rightarrow> (None, s\<lparr>alert_state := (alert_state s)(checkName \<mapsto> (resultHash, now))\<rparr>))"

text \<open>\<open>DELETE FROM alert_state WHERE check_name = ?\<close>\<close>

definition SQLite_Clear :: "SQLite \<Rightarrow> string \<Rightarrow> error option \<times> SQLite" where
  "SQLite_Clear s checkName =
     (case exec_err s of
        Some err \<Rightarrow> (Some (Errorf ''delete alert state'' err), s)
      | None \<Rightarrow> (None, s\<lparr>alert_state := (alert_state s)(checkName := None)\<rparr>))"

section \<open>internal/state: the State interface\<close>

text \<open>A \<open>State\<close> value is one of the two implementations; a method call dispatches on it.\<close>

datatype State = MemoryState Memory | SQLiteState SQLite

definition State_ShouldAlert :: "State \<Rightarrow> string \<Rightarrow> string \<Rightarrow> bool \<times> State" where
  "State_ShouldAlert st checkName resultHash =
     (case st of
        MemoryState m \<Rightarrow> map_prod id MemoryState (Memory_ShouldAlert m checkName resultHash)
      | SQLiteState s \<Rightarrow> map_prod id SQLiteState (SQLite_ShouldAlert s checkName resultHash))"

definition State_MarkAlerted ::
  "State \<Rightarrow> string \<Rightarrow> string \<Rightarrow> Time \<Rightarrow> error option \<times> State" where
  "State_MarkAlerted st checkName resultHash now =
     (case st of
        MemoryState m \<Rightarrow> map_prod id MemoryState (Memory_MarkAlerted m checkName resultHash now)
      | SQLiteState s \<Rightarrow> map_prod id SQLiteState (SQLite_MarkAlerted s checkName resultHash now))"

definition State_Clear :: "State \<Rightarrow> string \<Rightarrow> error option \<times> State" where
  "State_Clear st checkName =
     (case st of
        MemoryState m \<Rightarrow> map_prod id MemoryState (Memory_Clear m checkName)
      | SQLiteState s \<Rightarrow> map_prod id SQLiteState (SQLite_Clear s checkName))"

text \<open>
  Two observations of a store, used to state properties: the hash of the AlertRecord it
  holds for a check, and whether its lookups fail.
\<close>

definition stored_hash :: "State \<Rightarrow> string \<Rightarrow> string option" where
  "stored_hash st checkName =
     (case st of
        MemoryState m \<Rightarrow> map_option hash (m checkName)
      | SQLiteState s \<Rightarrow> map_option fst (alert_state s checkName))"

definition lookup_fails :: "State \<Rightarrow> bool" where
  "lookup_fails st =
     (case st of MemoryState m \<Rightarrow> False | SQLiteState s \<Rightarrow> query_err s \<noteq> None)"

definition write_fails :: "State \<Rightarrow> bool" where
  "write_fails st =
     (case st of MemoryState m \<Rightarrow> False | SQLiteState s \<Rightarrow> exec_err s \<noteq> None)"

text \<open>
  The same store before another execution: its records as they are, and what the driver
  will answer to that execution's query and exec. The in-memory store has no driver.
\<close>

definition with_driver :: "State \<Rightarrow> error option \<Rightarrow> error option \<Rightarrow> State" where
  "with_driver st q e =
     (case st of
        MemoryState m \<Rightarrow> MemoryState m
      | SQLiteState s \<Rightarrow> SQLiteState (s\<lparr>query_err := q, exec_err := e\<rparr>))"

section \<open>internal/notifier\<close>

text \<open>
  A \<open>Notifier\<close> value is its two methods. What a transport's \<open>Send\<close> returns depends on
  the outside world (network, context), of type \<open>'w\<close>.
\<close>

record 'w Notifier =
  Notifier_Name :: string
  Notifier_Send :: "'w \<Rightarrow> Alert \<Rightarrow> error option"

text \<open>
  \<open>Multi.Send\<close>: the loop over \<open>m.notifiers\<close> with the slice \<open>errs\<close>; the second
  accumulator lists the calls of \<open>n.Send\<close> the loop makes, in order.
\<close>

fun Multi_Send_loop ::
  "'w Notifier list \<Rightarrow> 'w \<Rightarrow> Alert \<Rightarrow> error list \<Rightarrow> (string \<times> Alert) list
     \<Rightarrow> error list \<times> (string \<times> Alert) list" where
  "Multi_Send_loop [] w alert errs calls = (errs, calls)"
| "Multi_Send_loop (n # ns) w alert errs calls =
     (case Notifier_Send n w alert of
        Some err \<Rightarrow>
          Multi_Send_loop ns w alert (errs @ [Errorf (Notifier_Name n) err])
            (calls @ [(Notifier_Name n, alert)])
      | None \<Rightarrow> Multi_Send_loop ns w alert errs (calls @ [(Notifier_Name n, alert)]))"

definition Multi_Send ::
  "'w Notifier list \<Rightarrow> 'w \<Rightarrow> Alert \<Rightarrow> error option \<times> (string \<times> Alert) list" where
  "Multi_Send notifiers w alert =
     (case Multi_Send_loop notifiers w alert [] [] of
        (errs, calls) \<Rightarrow>
          if length errs > 0 then (Some (MultiError errs), calls) else (None, calls))"

fun strings_Join :: "string list \<Rightarrow> string \<Rightarrow> string" where
  "strings_Join [] sep = []"
| "strings_Join [x] sep = x"
| "strings_Join (x # y # ys) sep = x @ sep @ strings_Join (y # ys) sep"

definition Multi_Name :: "'w Notifier list \<Rightarrow> string" where
  "Multi_Name notifiers = ''multi['' @ strings_Join (map Notifier_Name notifiers) '', '' @ '']''"

text \<open>\<open>NewMulti\<close>: the fan-out as a \<open>Notifier\<close> value.\<close>

definition NewMulti :: "'w Notifier list \<Rightarrow> 'w Notifier" where
  "NewMulti notifiers =
     \<lparr>Notifier_Name = Multi_Name notifiers,
      Notifier_Send = (\<lambda>w alert. fst (Multi_Send notifiers w alert))\<rparr>"

section \<open>internal/scheduler\<close>

definition maxBackoffMultiplier :: go_int where
  "maxBackoffMultiplier = 32"

definition time_Hour :: Duration where
  "time_Hour = 3600000000000"

definition time_Minute :: Duration where
  "time_Minute = 60000000000"

definition maxBackoffDuration :: Duration where
  "maxBackoffDuration = time_Hour"

text \<open>
  A check's \<open>Run\<close> is a function of the outside world (the context, the Claude client,
  what the probe finds); it returns an error or a result.
\<close>

record 'w Check =
  Name :: string
  Interval :: Duration
  Run :: "'w \<Rightarrow> error + CheckResult"

text \<open>
  The fields of \<open>Scheduler\<close> that \<open>executeCheck\<close> and \<open>Register\<close> use. The logger is
  the trace of events below; the Claude client is part of the world handed to \<open>Run\<close>.
\<close>

record 'w Scheduler =
  checks :: "'w Check list"
  notifier :: "'w Notifier"
  state :: State

definition Register :: "'w Scheduler \<Rightarrow> 'w Check \<Rightarrow> 'w Scheduler" where
  "Register s c = s\<lparr>checks := checks s @ [c]\<rparr>"

text \<open>
  What one invocation of \<open>executeCheck\<close> reads from outside: the world its probe and its
  notifier see, the two readings of the clock (by \<open>NewAlertFromResult\<close> and by
  \<open>MarkAlerted\<close>), and what the database driver answers to the query and to the exec of
  this invocation (read only when the store is the SQLite one).
\<close>

record 'w invocation =
  world :: 'w
  now_alert :: Time
  now_mark :: Time
  query_answer :: "error option"
  exec_answer :: "error option"

text \<open>
  Everything \<open>executeCheck\<close> and \<open>runCheck\<close> do to the outside, in order: the lines they
  log and the calls they make on the check, the store and the notifier.
\<close>

datatype event =
    LogRunning string
  | CallRun string
  | LogCheckError string go_int error
  | LogNoAlert string
  | CallClear string
  | LogClearFailed string error
  | CallShouldAlert string string
  | LogDuplicate string
  | CallSend Alert
  | LogNotifyError string error
  | CallMarkAlerted string string
  | LogMarkFailed string error
  | LogAlertSent string string
  | Wait Duration
  | Cancelled

text \<open>
  The values \<open>executeCheck\<close> leaves: the scheduler (its store may have changed), the two
  counters behind the pointers \<open>backoffMultiplier\<close> and \<open>consecutiveFailures\<close>, and the
  events.
\<close>

record 'w executed =
  sched :: "'w Scheduler"
  backoffMultiplier :: go_int
  consecutiveFailures :: go_int
  trace :: "event list"

definition logged :: "(string \<Rightarrow> error \<Rightarrow> event) \<Rightarrow> string \<Rightarrow> error option \<Rightarrow> event list" where
  "logged line name err = (case err of None \<Rightarrow> [] | Some e \<Rightarrow> [line name e])"

definition executeCheck ::
  "'w Scheduler \<Rightarrow> 'w Check \<Rightarrow> 'w invocation \<Rightarrow> go_int \<Rightarrow> go_int \<Rightarrow> panic + 'w executed" where
  "executeCheck s c iv backoffMultiplier0 consecutiveFailures0 =
     (case Run c (world iv) of
        Inl err \<Rightarrow>
          (let consecutiveFailures1 = consecutiveFailures0 + 1 in
           case go_shl 1 consecutiveFailures1 of
             Inl p \<Rightarrow> Inl p
           | Inr shifted \<Rightarrow>
               (let backoffMultiplier1 = go_min shifted maxBackoffMultiplier in
                Inr \<lparr>sched = s,
                     backoffMultiplier = backoffMultiplier1,
                     consecutiveFailures = consecutiveFailures1,
                     trace = [LogRunning (Name c), CallRun (Name c),
                              LogCheckError (Name c) backoffMultiplier1 err]\<rparr>))
      | Inr result \<Rightarrow>
          if \<not> ShouldAlert result then
            (case State_Clear (state s) (Name c) of
               (err, st) \<Rightarrow>
                 Inr \<lparr>sched = s\<lparr>state := st\<rparr>,
                      backoffMultiplier = 1,
                      consecutiveFailures = 0,
                      trace = [LogRunning (Name c), CallRun (Name c), LogNoAlert (Name c),
                               CallClear (Name c)] @ logged LogClearFailed (Name c) err\<rparr>)
          else
            (let resultHash = Hash (Title result) (Message result) in
             case State_ShouldAlert (state s) (Name c) resultHash of
               (new, st) \<Rightarrow>
                 if \<not> new then
                   Inr \<lparr>sched = s\<lparr>state := st\<rparr>,
                        backoffMultiplier = 1,
                        consecutiveFailures = 0,
                        trace = [LogRunning (Name c), CallRun (Name c),
                                 CallShouldAlert (Name c) resultHash, LogDuplicate (Name c)]\<rparr>
                 else
                   (let alert = NewAlertFromResult (Name c) result (now_alert iv) in
                    case Notifier_Send (notifier s) (world iv) alert of
                      Some err \<Rightarrow>
                        Inr \<lparr>sched = s\<lparr>state := st\<rparr>,
                             backoffMultiplier = 1,
                             consecutiveFailures = 0,
                             trace = [LogRunning (Name c), CallRun (Name c),
                                      CallShouldAlert (Name c) resultHash, CallSend alert,
                                      LogNotifyError (Name c) err]\<rparr>
                    | None \<Rightarrow>
                        (case State_MarkAlerted st (Name c) resultHash (now_mark iv) of
                           (err, st') \<Rightarrow>
                             Inr \<lparr>sched = s\<lparr>state := st'\<rparr>,
                                  backoffMultiplier = 1,
                                  consecutiveFailures = 0,
                                  trace = [LogRunning (Name c), CallRun (Name c),
                                           CallShouldAlert (Name c) resultHash, CallSend alert,
                                           CallMarkAlerted (Name c) resultHash]
                                          @ logged LogMarkFailed (Name c) err
                                          @ [LogAlertSent (Name c) (Title result)]\<rparr>))))"

text \<open>
  The head of the loop of \<open>runCheck\<close>: the interval it waits for, from the check's base
  interval and the current multiplier (\<open>time.Duration(backoffMultiplier)\<close> keeps the 64
  bits).
\<close>

definition nextInterval :: "Duration \<Rightarrow> go_int \<Rightarrow> Duration" where
  "nextInterval base backoffMultiplier0 =
     (let interval = base * backoffMultiplier0 in
      if go_lt maxBackoffDuration interval then maxBackoffDuration else interval)"

text \<open>
  The scheduler as an invocation finds it: the store with its records as the previous
  execution left them, and the driver answering as it does during this invocation.
\<close>

definition driven :: "'w Scheduler \<Rightarrow> 'w invocation \<Rightarrow> 'w Scheduler" where
  "driven s iv = s\<lparr>state := with_driver (state s) (query_answer iv) (exec_answer iv)\<rparr>"

text \<open>
  The loop of \<open>runCheck\<close>. It ends only when the context is cancelled, which is decided
  outside: the list holds the invocations for which the timer fired first, and the
  cancellation comes when the list is used up. Each turn computes the interval, waits for
  it and executes the check, on the scheduler as that invocation finds it.
\<close>

fun runCheck_loop ::
  "'w Check \<Rightarrow> 'w invocation list \<Rightarrow> 'w executed \<Rightarrow> panic + 'w executed" where
  "runCheck_loop c [] r =
     Inr (r\<lparr>trace := trace r @ [Cancelled]\<rparr>)"
| "runCheck_loop c (iv # ivs) r =
     (let interval = nextInterval (Interval c) (backoffMultiplier r) in
      case executeCheck (driven (sched r) iv) c iv (backoffMultiplier r)
             (consecutiveFailures r) of
        Inl p \<Rightarrow> Inl p
      | Inr r' \<Rightarrow> runCheck_loop c ivs (r'\<lparr>trace := trace r @ [Wait interval] @ trace r'\<rparr>))"

text \<open>\<open>runCheck\<close>: the counters start at \<open>1\<close> and \<open>0\<close>, and the check runs at once.\<close>

definition runCheck ::
  "'w Scheduler \<Rightarrow> 'w Check \<Rightarrow> 'w invocation \<Rightarrow> 'w invocation list \<Rightarrow> panic + 'w executed" where
  "runCheck s c first rest =
     (case executeCheck (driven s first) c first 1 0 of
        Inl p \<Rightarrow> Inl p
      | Inr r \<Rightarrow> runCheck_loop c rest r)"

section \<open>Specification-side notions\<close>

text \<open>
  The combined error the fan-out is to return: one entry per transport whose \<open>Send\<close>
  fails, in the order of the transports, each naming its transport.
\<close>

definition failed_transports :: "'w Notifier list \<Rightarrow> 'w \<Rightarrow> Alert \<Rightarrow> error list" where
  "failed_transports ns w alert =
     concat (map (\<lambda>n. case Notifier_Send n w alert of
                         None \<Rightarrow> []
                       | Some err \<Rightarrow> [Errorf (Notifier_Name n) err]) ns)"

text \<open>The waits of a run of \<open>runCheck\<close>, in order.\<close>

fun waits :: "event list \<Rightarrow> Duration list" where
  "waits [] = []"
| "waits (Wait d # es) = d # waits es"
| "waits (e # es) = waits es"

section \<open>Example values\<close>

text \<open>
  Concrete checks, results, transports and stores on which the theorems below are
  instantiated. The world of \<open>site_up\<close> is what its probe returns; \<open>at_zero\<close> is an
  invocation during which the driver reports no error.
\<close>

definition site_down :: CheckResult where
  "site_down =
     \<lparr>ShouldAlert = True, Title = ''Site Down'', Message = ''X is not responding'',
      Priority = PriorityHigh, Tags = [''web''], Metadata = Map.empty\<rparr>"

definition site_down_again :: CheckResult where
  "site_down_again =
     \<lparr>ShouldAlert = True, Title = ''Site Down'', Message = ''X is not responding'',
      Priority = PriorityLow, Tags = [], Metadata = [''region'' \<mapsto> ''eu'']\<rparr>"

definition all_clear :: CheckResult where
  "all_clear =
     \<lparr>ShouldAlert = False, Title = [], Message = [], Priority = PriorityLow, Tags = [],
      Metadata = Map.empty\<rparr>"

definition site_up :: "(error + CheckResult) Check" where
  "site_up = \<lparr>Name = ''site-up'', Interval = time_Minute, Run = (\<lambda>w. w)\<rparr>"

definition stdout :: "'w Notifier" where
  "stdout = \<lparr>Notifier_Name = ''stdout'', Notifier_Send = (\<lambda>w alert. None)\<rparr>"

definition ntfy_down :: "'w Notifier" where
  "ntfy_down =
     \<lparr>Notifier_Name = ''ntfy'',
      Notifier_Send = (\<lambda>w alert. Some (ErrorString ''ntfy returned status 503''))\<rparr>"

definition at_zero :: "'w \<Rightarrow> 'w invocation" where
  "at_zero w =
     \<lparr>world = w, now_alert = 0, now_mark = 0, query_answer = None, exec_answer = None\<rparr>"

definition at_zero_answering :: "'w \<Rightarrow> error option \<Rightarrow> error option \<Rightarrow> 'w invocation" where
  "at_zero_answering w q e =
     \<lparr>world = w, now_alert = 0, now_mark = 0, query_answer = q, exec_answer = e\<rparr>"

definition db_with :: "(string \<rightharpoonup> string \<times> Time) \<Rightarrow> error option \<Rightarrow> error option \<Rightarrow> State" where
  "db_with rows qe ee = SQLiteState \<lparr>alert_state = rows, query_err = qe, exec_err = ee\<rparr>"

definition locked :: error where
  "locked = ErrorString ''database is locked''"


definition sched_with :: "'w Notifier \<Rightarrow> State \<Rightarrow> 'w Scheduler" where
  "sched_with n st = \<lparr>checks = [], notifier = n, state = st\<rparr>"

definition probe_timeout :: error where
  "probe_timeout = ErrorString ''context deadline exceeded''"

definition failing :: "(error + CheckResult) invocation" where
  "failing = at_zero (Inl probe_timeout)"

section \<open>The library calls never fail the slice in \<open>Hash\<close>\<close>

lemma sha256_digest_length: "length (sha256_digest s) = 32"
  by (simp add: sha256_digest_def be32_bytes_def split: prod.splits)

lemma hex_digest_length: "length (EncodeToString (Sum256 m)) = 64"
  by (simp add: EncodeToString_def Sum256_def length_concat comp_def sum_list_triv
      sha256_digest_length)

section \<open>The condition hash and the stores\<close>

lemma Hash_concat:
  "Hash title message = take 16 (EncodeToString (Sum256 (bytes_of_string (title @ message))))"
  by (simp add: Hash_def sha256_New_def hasher_Write_def hasher_Sum_def bytes_of_string_def)

lemma Hash_length: "length (Hash title message) = 16"
  by (simp add: Hash_concat hex_digest_length)

lemma State_ShouldAlert_state: "snd (State_ShouldAlert st n h) = st"
  by (cases st)
     (simp_all add: State_ShouldAlert_def Memory_ShouldAlert_def SQLite_ShouldAlert_def
        split: option.splits sum.splits)

lemma State_ShouldAlert_iff:
  "fst (State_ShouldAlert st n h) \<longleftrightarrow> lookup_fails st \<or> stored_hash st n \<noteq> Some h"
  by (cases st)
     (auto simp add: State_ShouldAlert_def Memory_ShouldAlert_def SQLite_ShouldAlert_def
        select_result_hash_def lookup_fails_def stored_hash_def
        split: option.splits sum.splits)

lemma Multi_Send_loop_eq:
  "Multi_Send_loop ns w alert errs calls =
     (errs @ failed_transports ns w alert, calls @ map (\<lambda>n. (Notifier_Name n, alert)) ns)"
  by (induction ns arbitrary: errs calls)
     (simp_all add: failed_transports_def split: option.splits)

lemma failed_transports_Nil:
  "failed_transports ns w alert = [] \<longleftrightarrow> (\<forall>n \<in> set ns. Notifier_Send n w alert = None)"
  by (induction ns) (auto simp add: failed_transports_def split: option.splits)

lemma failed_transports_length:
  "length (failed_transports ns w alert) =
     length (filter (\<lambda>n. Notifier_Send n w alert \<noteq> None) ns)"
  by (induction ns) (auto simp add: failed_transports_def split: option.splits)

section \<open>Signed and unsigned readings of the counters\<close>

lemma uint_unat64: "uint (w :: 64 word) = int (unat w)"
  by simp

lemma sint_small: "unat (w :: 64 word) < 2 ^ 63 \<Longrightarrow> sint w = int (unat w)"
proof -
  assume "unat w < 2 ^ 63"
  then have "int (unat w) < int (2 ^ 63)"
    by (simp only: of_nat_less_iff)
  then have "uint w < 2 ^ 63"
    by (simp only: uint_unat64) simp
  moreover have "- (2 ^ 63) \<le> uint w"
    by (rule order_trans [of _ 0]) simp_all
  ultimately have "signed_take_bit 63 (uint w) = uint w"
    by (simp only: signed_take_bit_int_eq_self)
  then have "sint w = uint w"
    by (simp add: sint_uint)
  then show ?thesis
    by (simp only: uint_unat64)
qed

lemma sint_big: "2 ^ 63 \<le> unat (w :: 64 word) \<Longrightarrow> sint w < 0"
proof -
  assume "2 ^ 63 \<le> unat w"
  then have "int (2 ^ 63) \<le> int (unat w)"
    by (simp only: of_nat_le_iff)
  then have "2 ^ 63 \<le> uint w"
    by (simp only: uint_unat64) simp
  then have "signed_take_bit 63 (uint w) \<le> uint w - 2 ^ Suc 63"
    by (rule signed_take_bit_int_less_eq)
  moreover have "uint w - 2 ^ Suc 63 < 0"
    using uint_bounded [of w] by simp
  ultimately have "signed_take_bit 63 (uint w) < 0"
    by (rule le_less_trans)
  then show ?thesis
    by (simp add: sint_uint)
qed

lemma sint_neg_iff: "sint (w :: 64 word) < 0 \<longleftrightarrow> 2 ^ 63 \<le> unat w"
proof (cases "unat w < 2 ^ 63")
  case True
  then have "sint w = int (unat w)"
    by (rule sint_small)
  then have "\<not> sint w < 0"
    by simp
  with True show ?thesis
    by (simp only: not_le [symmetric]) 
next
  case False
  then have "2 ^ 63 \<le> unat w"
    by (simp only: not_less)
  then show ?thesis
    by (simp only: sint_big)
qed

lemma unat_succ: "unat (w :: 64 word) + 1 < 2 ^ 63 \<Longrightarrow> unat (w + 1) = unat w + 1"
proof -
  assume "unat w + 1 < 2 ^ 63"
  then have "unat w + unat (1 :: 64 word) < 2 ^ LENGTH(64)"
    by simp
  then have "unat (w + 1) = unat w + unat (1 :: 64 word)"
    by (simp only: unat_add_lem)
  then show ?thesis
    by simp
qed

lemma unat_shl_1: "n < 64 \<Longrightarrow> unat (push_bit n (1 :: 64 word)) = 2 ^ n"
proof -
  assume n: "n < 64"
  have lt: "(2 :: nat) ^ n < 2 ^ 64"
    using n by (rule power_strict_increasing) simp
  have "unat (push_bit n (1 :: 64 word)) = unat (of_nat (2 ^ n) :: 64 word)"
    by simp
  also have "\<dots> = 2 ^ n mod 2 ^ LENGTH(64)"
    by (rule unat_of_nat)
  also have "\<dots> = 2 ^ n"
  proof -
    have "LENGTH(64) = 64"
      by simp
    with lt show ?thesis
      by (simp only: mod_less)
  qed
  finally show ?thesis .
qed

lemma sint_shl_1: "n < 63 \<Longrightarrow> sint (push_bit n (1 :: 64 word)) = 2 ^ n"
proof -
  assume n: "n < 63"
  have lt: "(2 :: nat) ^ n < 2 ^ 63"
    using n by (rule power_strict_increasing) simp
  have u: "unat (push_bit n (1 :: 64 word)) = 2 ^ n"
    using n by (simp only: unat_shl_1)
  have "sint (push_bit n (1 :: 64 word)) = int (unat (push_bit n (1 :: 64 word)))"
    by (rule sint_small) (simp only: u lt)
  then show ?thesis
    by (simp only: u) simp
qed

section \<open>The paths of \<open>executeCheck\<close>\<close>

lemma State_Clear_flags:
  "lookup_fails (snd (State_Clear st n)) = lookup_fails st"
  "write_fails (snd (State_Clear st n)) = write_fails st"
  by (cases st; simp add: State_Clear_def Memory_Clear_def SQLite_Clear_def lookup_fails_def
        write_fails_def split: option.splits)+

lemma State_MarkAlerted_flags:
  "lookup_fails (snd (State_MarkAlerted st n h t)) = lookup_fails st"
  "write_fails (snd (State_MarkAlerted st n h t)) = write_fails st"
  by (cases st; simp add: State_MarkAlerted_def Memory_MarkAlerted_def SQLite_MarkAlerted_def
        lookup_fails_def write_fails_def split: option.splits)+



lemma State_MarkAlerted_ok:
  "\<not> write_fails st \<Longrightarrow>
     fst (State_MarkAlerted st n h t) = None \<and> stored_hash (snd (State_MarkAlerted st n h t)) n = Some h"
  by (cases st; simp add: State_MarkAlerted_def Memory_MarkAlerted_def SQLite_MarkAlerted_def
        stored_hash_def write_fails_def split: option.splits)

lemma State_MarkAlerted_failed:
  "write_fails st \<Longrightarrow> snd (State_MarkAlerted st n h t) = st \<and> fst (State_MarkAlerted st n h t) \<noteq> None"
  by (cases st; simp add: State_MarkAlerted_def Memory_MarkAlerted_def SQLite_MarkAlerted_def
        write_fails_def split: option.splits)

lemma set_logged:
  "e \<in> set (logged line n err) \<longleftrightarrow> (\<exists>x. err = Some x \<and> e = line n x)"
  by (cases err) (auto simp add: logged_def)

lemma executeCheck_Run_error:
  assumes "Run c (world iv) = Inl err"
  shows "executeCheck s c iv bm cf =
     (if sint (cf + 1) < 0 then Inl NegativeShiftAmount
      else Inr \<lparr>sched = s,
                backoffMultiplier = go_min (push_bit (unat (cf + 1)) 1) maxBackoffMultiplier,
                consecutiveFailures = cf + 1,
                trace = [LogRunning (Name c), CallRun (Name c),
                         LogCheckError (Name c)
                           (go_min (push_bit (unat (cf + 1)) 1) maxBackoffMultiplier) err]\<rparr>)"
  using assms by (simp add: executeCheck_def go_shl_def Let_def)

lemma executeCheck_no_alert:
  assumes "Run c (world iv) = Inr result" and "\<not> ShouldAlert result"
  shows "executeCheck s c iv bm cf =
     Inr \<lparr>sched = s\<lparr>state := snd (State_Clear (state s) (Name c))\<rparr>,
          backoffMultiplier = 1,
          consecutiveFailures = 0,
          trace = [LogRunning (Name c), CallRun (Name c), LogNoAlert (Name c), CallClear (Name c)]
                  @ logged LogClearFailed (Name c) (fst (State_Clear (state s) (Name c)))\<rparr>"
  using assms by (simp add: executeCheck_def Let_def case_prod_beta)

lemma executeCheck_duplicate:
  assumes "Run c (world iv) = Inr result" and "ShouldAlert result"
    and "\<not> fst (State_ShouldAlert (state s) (Name c) (Hash (Title result) (Message result)))"
  shows "executeCheck s c iv bm cf =
     Inr \<lparr>sched = s,
          backoffMultiplier = 1,
          consecutiveFailures = 0,
          trace = [LogRunning (Name c), CallRun (Name c),
                   CallShouldAlert (Name c) (Hash (Title result) (Message result)),
                   LogDuplicate (Name c)]\<rparr>"
  using assms State_ShouldAlert_state [of "state s" "Name c" "Hash (Title result) (Message result)"]
  by (simp add: executeCheck_def Let_def case_prod_beta)

lemma executeCheck_send_failed:
  assumes "Run c (world iv) = Inr result" and "ShouldAlert result"
    and "fst (State_ShouldAlert (state s) (Name c) (Hash (Title result) (Message result)))"
    and "Notifier_Send (notifier s) (world iv) (NewAlertFromResult (Name c) result (now_alert iv))
           = Some err"
  shows "executeCheck s c iv bm cf =
     Inr \<lparr>sched = s,
          backoffMultiplier = 1,
          consecutiveFailures = 0,
          trace = [LogRunning (Name c), CallRun (Name c),
                   CallShouldAlert (Name c) (Hash (Title result) (Message result)),
                   CallSend (NewAlertFromResult (Name c) result (now_alert iv)),
                   LogNotifyError (Name c) err]\<rparr>"
  using assms State_ShouldAlert_state [of "state s" "Name c" "Hash (Title result) (Message result)"]
  by (simp add: executeCheck_def Let_def case_prod_beta)

lemma executeCheck_sent:
  assumes "Run c (world iv) = Inr result" and "ShouldAlert result"
    and "fst (State_ShouldAlert (state s) (Name c) (Hash (Title result) (Message result)))"
    and "Notifier_Send (notifier s) (world iv) (NewAlertFromResult (Name c) result (now_alert iv))
           = None"
  shows "executeCheck s c iv bm cf =
     Inr \<lparr>sched = s\<lparr>state := snd (State_MarkAlerted (state s) (Name c)
                                   (Hash (Title result) (Message result)) (now_mark iv))\<rparr>,
          backoffMultiplier = 1,
          consecutiveFailures = 0,
          trace = [LogRunning (Name c), CallRun (Name c),
                   CallShouldAlert (Name c) (Hash (Title result) (Message result)),
                   CallSend (NewAlertFromResult (Name c) result (now_alert iv)),
                   CallMarkAlerted (Name c) (Hash (Title result) (Message result))]
                  @ logged LogMarkFailed (Name c)
                      (fst (State_MarkAlerted (state s) (Name c)
                              (Hash (Title result) (Message result)) (now_mark iv)))
                  @ [LogAlertSent (Name c) (Title result)]\<rparr>"
  using assms State_ShouldAlert_state [of "state s" "Name c" "Hash (Title result) (Message result)"]
  by (simp add: executeCheck_def Let_def case_prod_beta)

lemma executeCheck_Send_inv:
  assumes "executeCheck s c iv bm cf = Inr r" and "CallSend a \<in> set (trace r)"
  shows "\<exists>result. Run c (world iv) = Inr result \<and> ShouldAlert result
           \<and> fst (State_ShouldAlert (state s) (Name c) (Hash (Title result) (Message result)))
           \<and> a = NewAlertFromResult (Name c) result (now_alert iv)"
proof (cases "Run c (world iv)")
  case (Inl err)
  with assms show ?thesis
    by (auto simp add: executeCheck_Run_error split: if_splits)
next
  case (Inr result)
  show ?thesis
  proof (cases "ShouldAlert result")
    case False
    with Inr assms show ?thesis
      by (auto simp add: executeCheck_no_alert set_logged)
  next
    case True
    show ?thesis
    proof (cases "fst (State_ShouldAlert (state s) (Name c) (Hash (Title result) (Message result)))")
      case False
      with Inr True assms show ?thesis
        by (auto simp add: executeCheck_duplicate)
    next
      case new: True
      show ?thesis
      proof (cases "Notifier_Send (notifier s) (world iv)
                      (NewAlertFromResult (Name c) result (now_alert iv))")
        case None
        with Inr True new assms show ?thesis
          by (auto simp add: executeCheck_sent set_logged)
      next
        case (Some err)
        with Inr True new assms show ?thesis
          by (auto simp add: executeCheck_send_failed)
      qed
    qed
  qed
qed

text \<open>The records and the notifier of a scheduler do not depend on what the driver answers.\<close>

lemma stored_hash_with_driver: "stored_hash (with_driver st q e) n = stored_hash st n"
  by (cases st) (simp_all add: with_driver_def stored_hash_def)

lemma state_driven: "state (driven s iv) = with_driver (state s) (query_answer iv) (exec_answer iv)"
  by (simp add: driven_def)

lemma notifier_driven: "notifier (driven s iv) = notifier s"
  by (simp add: driven_def)

section \<open>Unfolding on concrete inputs\<close>

lemmas example_defs =
  site_down_def site_down_again_def all_clear_def site_up_def stdout_def ntfy_down_def
  at_zero_def at_zero_answering_def db_with_def sched_with_def

lemmas store_defs =
  State_ShouldAlert_def State_MarkAlerted_def State_Clear_def
  Memory_ShouldAlert_def Memory_MarkAlerted_def Memory_Clear_def NewMemory_def
  SQLite_ShouldAlert_def SQLite_MarkAlerted_def SQLite_Clear_def select_result_hash_def
  stored_hash_def lookup_fails_def write_fails_def with_driver_def

lemmas run_defs = executeCheck_def driven_def Let_def logged_def NewAlertFromResult_def

section \<open>The model on the two scenarios of the specification\<close>

text \<open>
  The digest of the alert of \<open>site-up\<close>, as \<open>crypto/sha256\<close> and \<open>encoding/hex\<close>
  give it.
\<close>

lemma Hash_site_down: "Hash ''Site Down'' ''X is not responding'' = ''ea4f0c05c827c902''"
  by code_simp

text \<open>
  \<open>site-up\<close> alerts, repeats the alert with other priority, tags and metadata, recovers,
  and alerts again: sent, suppressed, cleared, sent.
\<close>

lemma dedup_scenario:
  "map_sum id (\<lambda>r. (state (sched r), trace r))
     (runCheck (sched_with stdout (MemoryState NewMemory)) site_up (at_zero (Inr site_down))
        [at_zero (Inr site_down_again), at_zero (Inr all_clear), at_zero (Inr site_down)])
   = Inr (MemoryState [''site-up'' \<mapsto>
                         \<lparr>hash = Hash ''Site Down'' ''X is not responding'', alertedAt = 0\<rparr>],
          [LogRunning ''site-up'', CallRun ''site-up'',
           CallShouldAlert ''site-up'' (Hash ''Site Down'' ''X is not responding''),
           CallSend (NewAlertFromResult ''site-up'' site_down 0),
           CallMarkAlerted ''site-up'' (Hash ''Site Down'' ''X is not responding''),
           LogAlertSent ''site-up'' ''Site Down'',
           Wait time_Minute,
           LogRunning ''site-up'', CallRun ''site-up'',
           CallShouldAlert ''site-up'' (Hash ''Site Down'' ''X is not responding''),
           LogDuplicate ''site-up'',
           Wait time_Minute,
           LogRunning ''site-up'', CallRun ''site-up'', LogNoAlert ''site-up'',
           CallClear ''site-up'',
           Wait time_Minute,
           LogRunning ''site-up'', CallRun ''site-up'',
           CallShouldAlert ''site-up'' (Hash ''Site Down'' ''X is not responding''),
           CallSend (NewAlertFromResult ''site-up'' site_down 0),
           CallMarkAlerted ''site-up'' (Hash ''Site Down'' ''X is not responding''),
           LogAlertSent ''site-up'' ''Site Down'',
           Cancelled])"
  by (simp add: runCheck_def run_defs store_defs nextInterval_def go_lt_def
      maxBackoffDuration_def time_Hour_def time_Minute_def example_defs)

text \<open>
  Eight failing probes in a row with a base interval of one minute: the waits are 2, 4, 8,
  16, 32, 32 and 32 minutes.
\<close>

lemma backoff_scenario:
  "map_sum id (\<lambda>r. map sint (waits (trace r)))
     (runCheck (sched_with stdout (MemoryState NewMemory)) site_up failing
        [failing, failing, failing, failing, failing, failing, failing])
   = Inr [2 * 60000000000, 4 * 60000000000, 8 * 60000000000, 16 * 60000000000,
          32 * 60000000000, 32 * 60000000000, 32 * 60000000000]"
  by (simp add: runCheck_def run_defs go_shl_def go_min_def go_lt_def maxBackoffMultiplier_def
      nextInterval_def maxBackoffDuration_def time_Hour_def time_Minute_def failing_def
      example_defs)

section \<open>An alert is sent only when the store permits it (C1)\<close>

text \<open>
  C1, as the code has it. In every execution of every check, the notifier's \<open>Send\<close> is
  called only if \<open>ShouldAlert\<close> of the store, as the store is at that moment, answers true
  for the check's name and the condition hash of the alert: that is, only if the store's
  lookup fails (which only the SQLite store's can) or the store holds no record for the
  check whose hash is that condition hash. The alert sent is built from the result that
  \<open>Run\<close> returned in this execution.
\<close>

theorem Send_only_if_store_permits:
  assumes "executeCheck s c iv bm cf = Inr r" and "CallSend a \<in> set (trace r)"
  shows "fst (State_ShouldAlert (state s) (Name c) (Hash (ATitle a) (AMessage a)))
     \<and> (lookup_fails (state s)
          \<or> stored_hash (state s) (Name c) \<noteq> Some (Hash (ATitle a) (AMessage a)))
     \<and> (\<exists>result. Run c (world iv) = Inr result \<and> ShouldAlert result
            \<and> a = NewAlertFromResult (Name c) result (now_alert iv))"
proof -
  from assms obtain result where res:
    "Run c (world iv) = Inr result" "ShouldAlert result"
    "fst (State_ShouldAlert (state s) (Name c) (Hash (Title result) (Message result)))"
    "a = NewAlertFromResult (Name c) result (now_alert iv)"
    using executeCheck_Send_inv by blast
  from res(4) have ttl: "ATitle a = Title result" "AMessage a = Message result"
    by (simp_all add: NewAlertFromResult_def)
  from res(3) have "fst (State_ShouldAlert (state s) (Name c) (Hash (ATitle a) (AMessage a)))"
    by (simp only: ttl)
  moreover from this have "lookup_fails (state s)
      \<or> stored_hash (state s) (Name c) \<noteq> Some (Hash (ATitle a) (AMessage a))"
    by (simp only: State_ShouldAlert_iff)
  ultimately show ?thesis
    using res(1,2,4) by blast
qed

text \<open>The first alert of \<open>site-up\<close> on an empty in-memory store.\<close>

theorem Send_only_if_store_permits_witness:
  "executeCheck (sched_with stdout (MemoryState NewMemory)) site_up (at_zero (Inr site_down)) 1 0
     = Inr \<lparr>sched = sched_with stdout
                 (MemoryState [''site-up'' \<mapsto>
                    \<lparr>hash = Hash ''Site Down'' ''X is not responding'', alertedAt = 0\<rparr>]),
            backoffMultiplier = 1, consecutiveFailures = 0,
            trace = [LogRunning ''site-up'', CallRun ''site-up'',
                     CallShouldAlert ''site-up'' (Hash ''Site Down'' ''X is not responding''),
                     CallSend (NewAlertFromResult ''site-up'' site_down 0),
                     CallMarkAlerted ''site-up'' (Hash ''Site Down'' ''X is not responding''),
                     LogAlertSent ''site-up'' ''Site Down'']\<rparr>
   \<and> stored_hash (MemoryState NewMemory) ''site-up''
        \<noteq> Some (Hash ''Site Down'' ''X is not responding'')"
proof -
  let ?r = "\<lparr>sched = sched_with stdout
                 (MemoryState [''site-up'' \<mapsto>
                    \<lparr>hash = Hash ''Site Down'' ''X is not responding'', alertedAt = 0\<rparr>]),
            backoffMultiplier = 1, consecutiveFailures = 0,
            trace = [LogRunning ''site-up'', CallRun ''site-up'',
                     CallShouldAlert ''site-up'' (Hash ''Site Down'' ''X is not responding''),
                     CallSend (NewAlertFromResult ''site-up'' site_down 0),
                     CallMarkAlerted ''site-up'' (Hash ''Site Down'' ''X is not responding''),
                     LogAlertSent ''site-up'' ''Site Down'']\<rparr>"
  have run: "executeCheck (sched_with stdout (MemoryState NewMemory)) site_up
               (at_zero (Inr site_down)) 1 0 = Inr ?r"
    by (simp add: run_defs store_defs example_defs)
  have sent: "CallSend (NewAlertFromResult ''site-up'' site_down 0) \<in> set (trace ?r)"
    by simp
  from Send_only_if_store_permits [OF run sent] run show ?thesis
    by (simp add: example_defs store_defs NewAlertFromResult_def)
qed

text \<open>
  C1 as stated fails on the SQLite store: the store holds a record for \<open>site-up\<close> with
  the very condition hash of the result, its lookup reports an error, and the alert is sent.
\<close>

theorem Send_despite_same_hash_on_failed_lookup:
  "executeCheck
     (sched_with stdout
        (db_with [''site-up'' \<mapsto> (Hash ''Site Down'' ''X is not responding'', 0)]
           (Some locked) None))
     site_up (at_zero (Inr site_down)) 1 0
   = Inr \<lparr>sched = sched_with stdout
                (db_with [''site-up'' \<mapsto> (Hash ''Site Down'' ''X is not responding'', 0)]
                   (Some locked) None),
          backoffMultiplier = 1, consecutiveFailures = 0,
          trace = [LogRunning ''site-up'', CallRun ''site-up'',
                   CallShouldAlert ''site-up'' (Hash ''Site Down'' ''X is not responding''),
                   CallSend (NewAlertFromResult ''site-up'' site_down 0),
                   CallMarkAlerted ''site-up'' (Hash ''Site Down'' ''X is not responding''),
                   LogAlertSent ''site-up'' ''Site Down'']\<rparr>
   \<and> stored_hash
        (db_with [''site-up'' \<mapsto> (Hash ''Site Down'' ''X is not responding'', 0)]
           (Some locked) None) ''site-up''
       = Some (Hash (Title site_down) (Message site_down))"
  by (simp add: run_defs store_defs example_defs)

section \<open>Results with the same title and message are one condition (C2)\<close>

text \<open>
  C2, as the code has it. The condition hash is the first 16 hex characters of the SHA-256
  digest of the title followed by the message, so two results with the same title and
  message have the same hash, whatever their priority, tags and metadata. When the first
  was handed to the notifier and delivered, and the second follows it, the second is
  suppressed - no call of the notifier, no write to the store - provided the store
  recorded the first and answers the lookup for the second: always so for the in-memory
  store, and for the SQLite store when the upsert of the first execution and the query of
  the second report no error. Whether the lookup of the first execution was answered or
  failed open does not matter.
\<close>

theorem duplicate_of_recorded_alert_suppressed:
  assumes "Title r2 = Title r1" and "Message r2 = Message r1"
  shows "Hash (Title r1) (Message r1)
           = take 16 (EncodeToString (Sum256 (bytes_of_string (Title r1 @ Message r1))))
     \<and> Hash (Title r2) (Message r2) = Hash (Title r1) (Message r1)
     \<and> (executeCheck s c iv1 bm1 cf1 = Inr x1 \<and> Run c (world iv1) = Inr r1
          \<and> CallSend a1 \<in> set (trace x1) \<and> Notifier_Send (notifier s) (world iv1) a1 = None
          \<and> \<not> write_fails (state s)
          \<and> \<not> lookup_fails (state (driven (sched x1) iv2))
          \<and> Run c (world iv2) = Inr r2 \<and> ShouldAlert r2
         \<longrightarrow> executeCheck (driven (sched x1) iv2) c iv2 bm2 cf2
               = Inr \<lparr>sched = driven (sched x1) iv2,
                      backoffMultiplier = 1, consecutiveFailures = 0,
                      trace = [LogRunning (Name c), CallRun (Name c),
                               CallShouldAlert (Name c) (Hash (Title r2) (Message r2)),
                               LogDuplicate (Name c)]\<rparr>)"
proof -
  have eq: "Hash (Title r2) (Message r2) = Hash (Title r1) (Message r1)"
    using assms by simp
  have dup: "executeCheck (driven (sched x1) iv2) c iv2 bm2 cf2
               = Inr \<lparr>sched = driven (sched x1) iv2,
                      backoffMultiplier = 1, consecutiveFailures = 0,
                      trace = [LogRunning (Name c), CallRun (Name c),
                               CallShouldAlert (Name c) (Hash (Title r2) (Message r2)),
                               LogDuplicate (Name c)]\<rparr>"
    if first: "executeCheck s c iv1 bm1 cf1 = Inr x1" and run1: "Run c (world iv1) = Inr r1"
      and sent: "CallSend a1 \<in> set (trace x1)"
      and ok: "Notifier_Send (notifier s) (world iv1) a1 = None"
      and w: "\<not> write_fails (state s)"
      and l: "\<not> lookup_fails (state (driven (sched x1) iv2))"
      and run2: "Run c (world iv2) = Inr r2" and al2: "ShouldAlert r2"
  proof -
    from first sent obtain result where res:
      "Run c (world iv1) = Inr result" "ShouldAlert result"
      "fst (State_ShouldAlert (state s) (Name c) (Hash (Title result) (Message result)))"
      "a1 = NewAlertFromResult (Name c) result (now_alert iv1)"
      using executeCheck_Send_inv by blast
    from res(1) run1 have [simp]: "result = r1"
      by simp
    from ok res(4)
    have "Notifier_Send (notifier s) (world iv1)
            (NewAlertFromResult (Name c) result (now_alert iv1)) = None"
      by simp
    from executeCheck_sent [OF res(1,2,3) this, of bm1 cf1] first
    have st: "state (sched x1)
                = snd (State_MarkAlerted (state s) (Name c) (Hash (Title r1) (Message r1))
                         (now_mark iv1))"
      by auto
    from w have "stored_hash (state (sched x1)) (Name c) = Some (Hash (Title r1) (Message r1))"
      by (simp add: st State_MarkAlerted_ok)
    then have "stored_hash (state (driven (sched x1) iv2)) (Name c)
                 = Some (Hash (Title r2) (Message r2))"
      by (simp add: state_driven stored_hash_with_driver eq)
    with l
    have "\<not> fst (State_ShouldAlert (state (driven (sched x1) iv2)) (Name c)
                    (Hash (Title r2) (Message r2)))"
      by (simp add: State_ShouldAlert_iff)
    from executeCheck_duplicate [OF run2 al2 this] show ?thesis .
  qed
  from eq dup show ?thesis
    by (simp add: Hash_concat)
qed

text \<open>
  \<open>site-up\<close> on the SQLite store: the lookup for the first result fails open, the alert
  is delivered and recorded; the lookup for the second result, with the same title and
  message but another priority, other tags and other metadata, is answered, and the second
  is suppressed.
\<close>

theorem duplicate_of_recorded_alert_suppressed_witness:
  "executeCheck (sched_with stdout (db_with Map.empty (Some locked) None)) site_up
     (at_zero_answering (Inr site_down) (Some locked) None) 1 0
     = Inr \<lparr>sched = sched_with stdout
                 (db_with [''site-up'' \<mapsto> (Hash ''Site Down'' ''X is not responding'', 0)]
                    (Some locked) None),
            backoffMultiplier = 1, consecutiveFailures = 0,
            trace = [LogRunning ''site-up'', CallRun ''site-up'',
                     CallShouldAlert ''site-up'' (Hash ''Site Down'' ''X is not responding''),
                     CallSend (NewAlertFromResult ''site-up'' site_down 0),
                     CallMarkAlerted ''site-up'' (Hash ''Site Down'' ''X is not responding''),
                     LogAlertSent ''site-up'' ''Site Down'']\<rparr>
   \<and> executeCheck
        (sched_with stdout
           (db_with [''site-up'' \<mapsto> (Hash ''Site Down'' ''X is not responding'', 0)]
              None None))
        site_up (at_zero (Inr site_down_again)) 1 0
     = Inr \<lparr>sched = sched_with stdout
                 (db_with [''site-up'' \<mapsto> (Hash ''Site Down'' ''X is not responding'', 0)]
                    None None),
            backoffMultiplier = 1, consecutiveFailures = 0,
            trace = [LogRunning ''site-up'', CallRun ''site-up'',
                     CallShouldAlert ''site-up'' (Hash ''Site Down'' ''X is not responding''),
                     LogDuplicate ''site-up'']\<rparr>"
proof -
  let ?s = "sched_with stdout (db_with Map.empty (Some locked) None)
            :: (error + CheckResult) Scheduler"
  let ?iv1 = "at_zero_answering (Inr site_down) (Some locked) None
              :: (error + CheckResult) invocation"
  let ?iv2 = "at_zero (Inr site_down_again) :: (error + CheckResult) invocation"
  let ?x1 = "\<lparr>sched = sched_with stdout
                 (db_with [''site-up'' \<mapsto> (Hash ''Site Down'' ''X is not responding'', 0)]
                    (Some locked) None),
            backoffMultiplier = 1, consecutiveFailures = 0,
            trace = [LogRunning ''site-up'', CallRun ''site-up'',
                     CallShouldAlert ''site-up'' (Hash ''Site Down'' ''X is not responding''),
                     CallSend (NewAlertFromResult ''site-up'' site_down 0),
                     CallMarkAlerted ''site-up'' (Hash ''Site Down'' ''X is not responding''),
                     LogAlertSent ''site-up'' ''Site Down'']\<rparr>"
  have same: "Title site_down_again = Title site_down" "Message site_down_again = Message site_down"
    by (simp_all add: example_defs)
  have run: "executeCheck ?s site_up ?iv1 1 0 = Inr ?x1"
    by (simp add: run_defs store_defs example_defs)
  have hyps: "executeCheck ?s site_up ?iv1 1 0 = Inr ?x1
       \<and> Run site_up (world ?iv1) = Inr site_down
       \<and> CallSend (NewAlertFromResult ''site-up'' site_down 0) \<in> set (trace ?x1)
       \<and> Notifier_Send (notifier ?s) (world ?iv1)
            (NewAlertFromResult ''site-up'' site_down 0) = None
       \<and> \<not> write_fails (state ?s)
       \<and> \<not> lookup_fails (state (driven (sched ?x1) ?iv2))
       \<and> Run site_up (world ?iv2) = Inr site_down_again
       \<and> ShouldAlert site_down_again"
    using run by (simp add: example_defs store_defs driven_def)
  from duplicate_of_recorded_alert_suppressed [OF same, of ?s site_up ?iv1 1 0
         ?x1 "NewAlertFromResult ''site-up'' site_down 0" ?iv2 1 0]
       hyps
  have "executeCheck (driven (sched ?x1) ?iv2) site_up ?iv2 1 0
          = Inr \<lparr>sched = driven (sched ?x1) ?iv2,
                 backoffMultiplier = 1, consecutiveFailures = 0,
                 trace = [LogRunning (Name site_up), CallRun (Name site_up),
                          CallShouldAlert (Name site_up)
                            (Hash (Title site_down_again) (Message site_down_again)),
                          LogDuplicate (Name site_up)]\<rparr>"
    by blast
  then have second:
    "executeCheck
        (sched_with stdout
           (db_with [''site-up'' \<mapsto> (Hash ''Site Down'' ''X is not responding'', 0)]
              None None))
        site_up (at_zero (Inr site_down_again)) 1 0
     = Inr \<lparr>sched = sched_with stdout
                 (db_with [''site-up'' \<mapsto> (Hash ''Site Down'' ''X is not responding'', 0)]
                    None None),
            backoffMultiplier = 1, consecutiveFailures = 0,
            trace = [LogRunning ''site-up'', CallRun ''site-up'',
                     CallShouldAlert ''site-up'' (Hash ''Site Down'' ''X is not responding''),
                     LogDuplicate ''site-up'']\<rparr>"
    by (simp add: driven_def with_driver_def site_up_def site_down_again_def sched_with_def
        db_with_def at_zero_def)
  from run second show ?thesis
    by (rule conjI)
qed

text \<open>
  C2 as stated fails on the SQLite store: the first result is delivered and recorded, the
  lookup for the second reports an error, and the second is sent as well.
\<close>

theorem duplicate_sent_on_failed_lookup:
  "executeCheck (sched_with stdout (db_with Map.empty (Some locked) None)) site_up
     (at_zero (Inr site_down)) 1 0
     = Inr \<lparr>sched = sched_with stdout
                 (db_with [''site-up'' \<mapsto> (Hash ''Site Down'' ''X is not responding'', 0)]
                    (Some locked) None),
            backoffMultiplier = 1, consecutiveFailures = 0,
            trace = [LogRunning ''site-up'', CallRun ''site-up'',
                     CallShouldAlert ''site-up'' (Hash ''Site Down'' ''X is not responding''),
                     CallSend (NewAlertFromResult ''site-up'' site_down 0),
                     CallMarkAlerted ''site-up'' (Hash ''Site Down'' ''X is not responding''),
                     LogAlertSent ''site-up'' ''Site Down'']\<rparr>
   \<and> executeCheck
        (sched_with stdout
           (db_with [''site-up'' \<mapsto> (Hash ''Site Down'' ''X is not responding'', 0)]
              (Some locked) None))
        site_up (at_zero (Inr site_down_again)) 1 0
     = Inr \<lparr>sched = sched_with stdout
                 (db_with [''site-up'' \<mapsto> (Hash ''Site Down'' ''X is not responding'', 0)]
                    (Some locked) None),
            backoffMultiplier = 1, consecutiveFailures = 0,
            trace = [LogRunning ''site-up'', CallRun ''site-up'',
                     CallShouldAlert ''site-up'' (Hash ''Site Down'' ''X is not responding''),
                     CallSend (NewAlertFromResult ''site-up'' site_down_again 0),
                     CallMarkAlerted ''site-up'' (Hash ''Site Down'' ''X is not responding''),
                     LogAlertSent ''site-up'' ''Site Down'']\<rparr>"
  by (simp add: run_defs store_defs example_defs)

section \<open>Backoff\<close>

text \<open>
  A run of failures from the start of \<open>runCheck\<close>: as long as the count stays below
  \<open>2 ^ 63\<close>, the count after \<open>n\<close> failures is \<open>n\<close> and the multiplier is what the
  code computes from it, \<open>min(1 << n, 32)\<close> on 64-bit integers.
\<close>

lemma runCheck_loop_failures:
  assumes "\<forall>iv \<in> set ivs. \<exists>e. Run c (world iv) = Inl e"
    and "unat (consecutiveFailures r) + length ivs < 2 ^ 63"
  shows "\<exists>r'. runCheck_loop c ivs r = Inr r'
           \<and> consecutiveFailures r' = consecutiveFailures r + of_nat (length ivs)
           \<and> backoffMultiplier r'
               = (if ivs = [] then backoffMultiplier r
                  else go_min (push_bit (unat (consecutiveFailures r) + length ivs) 1)
                         maxBackoffMultiplier)"
  using assms
proof (induction ivs arbitrary: r)
  case Nil
  then show ?case
    by simp
next
  case (Cons iv ivs)
  from Cons.prems(1) obtain e where e: "Run c (world iv) = Inl e"
    by auto
  from Cons.prems(2) have small: "unat (consecutiveFailures r) + 1 < 2 ^ 63"
    by simp
  then have succ: "unat (consecutiveFailures r + 1) = unat (consecutiveFailures r) + 1"
    by (rule unat_succ)
  with small have nonneg: "\<not> sint (consecutiveFailures r + 1) < 0"
    by (simp only: sint_neg_iff not_le)
  let ?bm = "go_min (push_bit (unat (consecutiveFailures r + 1)) 1) maxBackoffMultiplier"
  let ?r1 = "\<lparr>sched = driven (sched r) iv, backoffMultiplier = ?bm,
              consecutiveFailures = consecutiveFailures r + 1,
              trace = trace r @ [Wait (nextInterval (Interval c) (backoffMultiplier r))]
                      @ [LogRunning (Name c), CallRun (Name c), LogCheckError (Name c) ?bm e]\<rparr>"
  have step: "runCheck_loop c (iv # ivs) r = runCheck_loop c ivs ?r1"
    using nonneg by (simp add: executeCheck_Run_error [OF e])
  from Cons.prems(1) have all: "\<forall>iv \<in> set ivs. \<exists>e. Run c (world iv) = Inl e"
    by simp
  from Cons.prems(2) succ have bound: "unat (consecutiveFailures ?r1) + length ivs < 2 ^ 63"
    by simp
  from Cons.IH [OF all bound] obtain r' where r':
    "runCheck_loop c ivs ?r1 = Inr r'"
    "consecutiveFailures r' = consecutiveFailures ?r1 + of_nat (length ivs)"
    "backoffMultiplier r'
       = (if ivs = [] then backoffMultiplier ?r1
          else go_min (push_bit (unat (consecutiveFailures ?r1) + length ivs) 1)
                 maxBackoffMultiplier)"
    by blast
  from r'(2) have cf: "consecutiveFailures r' = consecutiveFailures r + of_nat (length (iv # ivs))"
    by simp
  from r'(3) succ
  have bm: "backoffMultiplier r'
              = go_min (push_bit (unat (consecutiveFailures r) + length (iv # ivs)) 1)
                  maxBackoffMultiplier"
    by (cases "ivs = []") simp_all
  from step r'(1) cf bm show ?case
    by simp
qed

lemma runCheck_failures:
  assumes "Run c (world first) = Inl e"
    and "\<forall>iv \<in> set rest. \<exists>e. Run c (world iv) = Inl e"
    and "Suc (length rest) < 2 ^ 63"
  shows "\<exists>r. runCheck s c first rest = Inr r
           \<and> consecutiveFailures r = of_nat (Suc (length rest))
           \<and> backoffMultiplier r = go_min (push_bit (Suc (length rest)) 1) maxBackoffMultiplier"
proof -
  let ?bm = "go_min (push_bit (unat (0 + 1 :: go_int)) 1) maxBackoffMultiplier"
  let ?r0 = "\<lparr>sched = driven s first, backoffMultiplier = ?bm, consecutiveFailures = 0 + 1,
              trace = [LogRunning (Name c), CallRun (Name c), LogCheckError (Name c) ?bm e]\<rparr>"
  have first: "executeCheck (driven s first) c first 1 0 = Inr ?r0"
    by (simp add: executeCheck_Run_error [OF assms(1)])
  have bound: "unat (consecutiveFailures ?r0) + length rest < 2 ^ 63"
    using assms(3) by simp
  from runCheck_loop_failures [OF assms(2) bound] obtain r where r:
    "runCheck_loop c rest ?r0 = Inr r"
    "consecutiveFailures r = consecutiveFailures ?r0 + of_nat (length rest)"
    "backoffMultiplier r
       = (if rest = [] then backoffMultiplier ?r0
          else go_min (push_bit (unat (consecutiveFailures ?r0) + length rest) 1)
                 maxBackoffMultiplier)"
    by blast
  from r(3) have "backoffMultiplier r
                    = go_min (push_bit (Suc (length rest)) 1) maxBackoffMultiplier"
    by (cases "rest = []") simp_all
  with first r(1,2) show ?thesis
    by (simp add: runCheck_def)
qed

text \<open>
  Up to 62 failures in a row the shift does not reach the sign bit, and the multiplier is
  \<open>min(2 ^ n, 32)\<close>. The multiplier never exceeds 32 and the wait never exceeds one hour;
  the wait is \<open>min(base * multiplier, 1 hour)\<close> whenever the product fits 64 bits.
\<close>

lemma go_min_shl_small:
  assumes "n < 63"
  shows "sint (go_min (push_bit n 1) maxBackoffMultiplier) = min (2 ^ n) 32"
proof -
  have "sint (push_bit n (1 :: go_int)) = 2 ^ n"
    using assms by (rule sint_shl_1)
  then show ?thesis
    by (simp add: go_min_def go_lt_def maxBackoffMultiplier_def min_def)
qed

lemma multiplier_at_most_32: "sint (go_min x maxBackoffMultiplier) \<le> 32"
  by (simp add: go_min_def go_lt_def maxBackoffMultiplier_def)

lemma nextInterval_at_most_hour: "sint (nextInterval base m) \<le> 3600000000000"
  by (simp add: nextInterval_def go_lt_def maxBackoffDuration_def time_Hour_def Let_def)

lemma nextInterval_exact:
  assumes "- (2 ^ 63) \<le> sint base * sint m" and "sint base * sint m < 2 ^ 63"
  shows "sint (nextInterval base m) = min (sint base * sint m) 3600000000000"
proof -
  have "sint (base * m) = signed_take_bit 63 (sint base * sint m)"
    by (simp add: sint_word_ariths)
  also have "\<dots> = sint base * sint m"
    using assms by (simp only: signed_take_bit_int_eq_self)
  finally show ?thesis
    by (simp add: nextInterval_def go_lt_def maxBackoffDuration_def time_Hour_def Let_def min_def)
qed

text \<open>Both together, for a run of at most 62 failures from the start of \<open>runCheck\<close>.\<close>

lemma backoff_after_failures:
  assumes "Run c (world first) = Inl e"
    and "\<forall>iv \<in> set rest. \<exists>e. Run c (world iv) = Inl e"
    and "Suc (length rest) < 63"
  shows "\<exists>r. runCheck s c first rest = Inr r
           \<and> sint (consecutiveFailures r) = int (Suc (length rest))
           \<and> sint (backoffMultiplier r) = min (2 ^ Suc (length rest)) 32
           \<and> (- (2 ^ 63) \<le> sint (Interval c) * min (2 ^ Suc (length rest)) 32
                \<and> sint (Interval c) * min (2 ^ Suc (length rest)) 32 < 2 ^ 63
               \<longrightarrow> sint (nextInterval (Interval c) (backoffMultiplier r))
                     = min (sint (Interval c) * min (2 ^ Suc (length rest)) 32) 3600000000000)"
proof -
  from assms(3) have "Suc (length rest) < 2 ^ 63"
    by simp
  from runCheck_failures [OF assms(1,2) this, of s] obtain r where r:
    "runCheck s c first rest = Inr r"
    "consecutiveFailures r = of_nat (Suc (length rest))"
    "backoffMultiplier r = go_min (push_bit (Suc (length rest)) 1) maxBackoffMultiplier"
    by blast
  have "unat (of_nat (Suc (length rest)) :: go_int) = Suc (length rest)"
    using assms(3) by (simp only: unat_of_nat) simp
  moreover from this assms(3) have "unat (of_nat (Suc (length rest)) :: go_int) < 2 ^ 63"
    by simp
  ultimately have cf: "sint (of_nat (Suc (length rest)) :: go_int) = int (Suc (length rest))"
    by (simp only: sint_small)
  have bm: "sint (backoffMultiplier r) = min (2 ^ Suc (length rest)) 32"
    using go_min_shl_small [OF assms(3)] by (simp only: r(3))
  have "sint (nextInterval (Interval c) (backoffMultiplier r))
          = min (sint (Interval c) * min (2 ^ Suc (length rest)) 32) 3600000000000"
    if "- (2 ^ 63) \<le> sint (Interval c) * min (2 ^ Suc (length rest)) 32"
      and "sint (Interval c) * min (2 ^ Suc (length rest)) 32 < 2 ^ 63"
    using nextInterval_exact [of "Interval c" "backoffMultiplier r"] that
    by (simp only: bm)
  with r(1,2) cf bm show ?thesis
    by simp
qed

section \<open>The multiplier after a run of failures (C3)\<close>

text \<open>
  C3 at a failing input. After 63 failures in a row of \<open>site-up\<close> (base interval one
  minute) the code's multiplier is \<open>1 << 63\<close>, the least 64-bit integer, which the clamp
  \<open>min(_, 32)\<close> lets through, and the wait before the next execution is 0; the claim
  gives the multiplier \<open>min(2 ^ 63, 32) = 32\<close> and a wait of 32 minutes.
\<close>

theorem multiplier_negative_after_63_failures:
  "map_sum id (\<lambda>r. (sint (consecutiveFailures r), sint (backoffMultiplier r),
                     sint (nextInterval (Interval site_up) (backoffMultiplier r))))
     (runCheck (sched_with stdout (MemoryState NewMemory)) site_up failing (replicate 62 failing))
   = Inr (63, - 9223372036854775808, 0)"
proof -
  have "Run site_up (world failing) = Inl probe_timeout"
    by (simp add: failing_def example_defs)
  moreover have "\<forall>iv \<in> set (replicate 62 failing). \<exists>e. Run site_up (world iv) = Inl e"
    by (simp add: failing_def example_defs)
  moreover have "Suc (length (replicate 62 failing)) < 2 ^ 63"
    by simp
  ultimately obtain r where
    "runCheck (sched_with stdout (MemoryState NewMemory)) site_up failing (replicate 62 failing)
       = Inr r"
    "consecutiveFailures r = of_nat (Suc (length (replicate 62 failing)))"
    "backoffMultiplier r
       = go_min (push_bit (Suc (length (replicate 62 failing))) 1) maxBackoffMultiplier"
    using runCheck_failures by blast
  then show ?thesis
    by (simp add: go_min_def go_lt_def maxBackoffMultiplier_def nextInterval_def
        maxBackoffDuration_def time_Hour_def time_Minute_def site_up_def)
qed

section \<open>The multiplier on long runs of failures (C4)\<close>

text \<open>
  C4 at a failing input. After 64 failures in a row the code's multiplier is
  \<open>1 << 64 = 0\<close> and the wait before the next execution is 0; the claim says that the
  multiplier never becomes zero or negative, however long the streak.
\<close>

theorem multiplier_zero_after_64_failures:
  "map_sum id (\<lambda>r. (sint (consecutiveFailures r), sint (backoffMultiplier r),
                     sint (nextInterval (Interval site_up) (backoffMultiplier r))))
     (runCheck (sched_with stdout (MemoryState NewMemory)) site_up failing (replicate 63 failing))
   = Inr (64, 0, 0)"
proof -
  have "Run site_up (world failing) = Inl probe_timeout"
    by (simp add: failing_def example_defs)
  moreover have "\<forall>iv \<in> set (replicate 63 failing). \<exists>e. Run site_up (world iv) = Inl e"
    by (simp add: failing_def example_defs)
  moreover have "Suc (length (replicate 63 failing)) < 2 ^ 63"
    by simp
  ultimately obtain r where
    "runCheck (sched_with stdout (MemoryState NewMemory)) site_up failing (replicate 63 failing)
       = Inr r"
    "consecutiveFailures r = of_nat (Suc (length (replicate 63 failing)))"
    "backoffMultiplier r
       = go_min (push_bit (Suc (length (replicate 63 failing))) 1) maxBackoffMultiplier"
    using runCheck_failures by blast
  then show ?thesis
    by (simp add: go_min_def go_lt_def maxBackoffMultiplier_def nextInterval_def
        maxBackoffDuration_def time_Hour_def time_Minute_def site_up_def)
qed

section \<open>The store contract (C5)\<close>

text \<open>
  C5, as the code has it. \<open>ShouldAlert(checkID, conditionHash)\<close> leaves the store as it
  found it, in both implementations. The in-memory store answers true exactly when it holds
  no record for \<open>checkID\<close> or the record's hash differs from \<open>conditionHash\<close>. The
  SQLite store answers true exactly when its query reports an error (it fails open), or no
  row exists for \<open>checkID\<close>, or the row's hash differs.
\<close>

theorem ShouldAlert_contract:
  "(fst (Memory_ShouldAlert m checkID h) \<longleftrightarrow>
      (m checkID = None \<or> (\<exists>r. m checkID = Some r \<and> hash r \<noteq> h)))
   \<and> snd (Memory_ShouldAlert m checkID h) = m
   \<and> (fst (SQLite_ShouldAlert s checkID h) \<longleftrightarrow>
        (query_err s \<noteq> None \<or> alert_state s checkID = None
         \<or> (\<exists>row. alert_state s checkID = Some row \<and> fst row \<noteq> h)))
   \<and> snd (SQLite_ShouldAlert s checkID h) = s"
  by (auto simp add: Memory_ShouldAlert_def SQLite_ShouldAlert_def select_result_hash_def
      split: option.splits)

text \<open>The contract on a store holding one record, asked for another and for the same hash.\<close>

theorem ShouldAlert_contract_witness:
  "fst (Memory_ShouldAlert (Map.empty(''site-up'' \<mapsto> \<lparr>hash = ''aa'', alertedAt = 5\<rparr>)) ''site-up'' ''bb'')
   \<and> \<not> fst (Memory_ShouldAlert (Map.empty(''site-up'' \<mapsto> \<lparr>hash = ''aa'', alertedAt = 5\<rparr>)) ''site-up'' ''aa'')
   \<and> \<not> fst (SQLite_ShouldAlert \<lparr>alert_state = [''site-up'' \<mapsto> (''aa'', 5)], query_err = None, exec_err = None\<rparr> ''site-up'' ''aa'')
   \<and> fst (SQLite_ShouldAlert \<lparr>alert_state = [''site-up'' \<mapsto> (''aa'', 5)], query_err = Some locked, exec_err = None\<rparr> ''site-up'' ''aa'')"
  using ShouldAlert_contract [of "Map.empty(''site-up'' \<mapsto> \<lparr>hash = ''aa'', alertedAt = 5\<rparr>)" "''site-up''" "''bb''"
          "\<lparr>alert_state = [''site-up'' \<mapsto> (''aa'', 5)], query_err = None, exec_err = None\<rparr>"]
        ShouldAlert_contract [of "Map.empty(''site-up'' \<mapsto> \<lparr>hash = ''aa'', alertedAt = 5\<rparr>)" "''site-up''" "''aa''"
          "\<lparr>alert_state = [''site-up'' \<mapsto> (''aa'', 5)], query_err = Some locked, exec_err = None\<rparr>"]
  by (simp add: SQLite_ShouldAlert_def select_result_hash_def)

text \<open>
  C5 as stated fails for the SQLite store: with a record for \<open>site-up\<close> whose hash is the
  condition hash, a query that reports an error makes \<open>ShouldAlert\<close> answer true.
\<close>

theorem SQLite_ShouldAlert_fails_open:
  "\<not> (fst (SQLite_ShouldAlert
             \<lparr>alert_state = [''site-up'' \<mapsto> (''ea4f0c05c827c902'', 5)],
              query_err = Some locked, exec_err = None\<rparr> ''site-up'' ''ea4f0c05c827c902'')
       \<longleftrightarrow>
       ([''site-up'' \<mapsto> (''ea4f0c05c827c902'', 5 :: Time)] ''site-up'' = None
        \<or> (\<exists>row. [''site-up'' \<mapsto> (''ea4f0c05c827c902'', 5 :: Time)] ''site-up'' = Some row
                  \<and> fst row \<noteq> ''ea4f0c05c827c902'')))"
  by (simp add: SQLite_ShouldAlert_def select_result_hash_def)

section \<open>A failed delivery is not recorded (C6)\<close>

text \<open>
  C6, as the code has it. In every execution in which the notifier's \<open>Send\<close> is called
  and returns an error, \<open>MarkAlerted\<close> is not called and the store is left as it was. At
  the next occurrence \<open>ShouldAlert\<close> answers true for the same condition hash exactly when
  the lookup then fails or the unchanged store holds no record with that hash for the
  check. So when the lookup of the failed execution was answered - always so for the
  in-memory store - the next result with the same title and message is handed to the
  notifier again, whatever the driver answers then; when that lookup failed open, it is
  handed to the notifier again if the next lookup fails too.
\<close>

theorem failed_Send_records_nothing:
  assumes "executeCheck s c iv bm cf = Inr r" and "CallSend a \<in> set (trace r)"
    and "Notifier_Send (notifier s) (world iv) a = Some err"
  shows "state (sched r) = state s
     \<and> (\<forall>n h. CallMarkAlerted n h \<notin> set (trace r))
     \<and> (\<forall>iv'. fst (State_ShouldAlert (state (driven (sched r) iv')) (Name c)
                     (Hash (ATitle a) (AMessage a)))
              \<longleftrightarrow> (lookup_fails (state (driven (sched r) iv'))
                   \<or> stored_hash (state s) (Name c) \<noteq> Some (Hash (ATitle a) (AMessage a))))
     \<and> (\<forall>iv' result' bm' cf'.
           (\<not> lookup_fails (state s) \<or> lookup_fails (state (driven (sched r) iv')))
           \<and> Run c (world iv') = Inr result' \<and> ShouldAlert result'
           \<and> Title result' = ATitle a \<and> Message result' = AMessage a
           \<longrightarrow> (\<exists>r'. executeCheck (driven (sched r) iv') c iv' bm' cf' = Inr r'
                     \<and> CallSend (NewAlertFromResult (Name c) result' (now_alert iv'))
                          \<in> set (trace r')))"
proof -
  let ?h = "Hash (ATitle a) (AMessage a)"
  from assms(1,2) obtain result where res:
    "Run c (world iv) = Inr result" "ShouldAlert result"
    "fst (State_ShouldAlert (state s) (Name c) (Hash (Title result) (Message result)))"
    "a = NewAlertFromResult (Name c) result (now_alert iv)"
    using executeCheck_Send_inv by blast
  from res(4) have ttl: "ATitle a = Title result" "AMessage a = Message result"
    by (simp_all add: NewAlertFromResult_def)
  from assms(3) res(4)
  have "Notifier_Send (notifier s) (world iv) (NewAlertFromResult (Name c) result (now_alert iv))
          = Some err"
    by simp
  from executeCheck_send_failed [OF res(1,2,3) this, of bm cf] assms(1)
  have r: "r = \<lparr>sched = s, backoffMultiplier = 1, consecutiveFailures = 0,
                trace = [LogRunning (Name c), CallRun (Name c),
                         CallShouldAlert (Name c) (Hash (Title result) (Message result)),
                         CallSend (NewAlertFromResult (Name c) result (now_alert iv)),
                         LogNotifyError (Name c) err]\<rparr>"
    by simp
  have same: "state (sched r) = state s"
    by (simp add: r)
  have nomark: "\<forall>n h. CallMarkAlerted n h \<notin> set (trace r)"
    by (simp add: r)
  from res(3) have now: "lookup_fails (state s) \<or> stored_hash (state s) (Name c) \<noteq> Some ?h"
    by (simp add: State_ShouldAlert_iff ttl)
  have next_lookup:
    "fst (State_ShouldAlert (state (driven (sched r) iv')) (Name c) ?h)
       \<longleftrightarrow> (lookup_fails (state (driven (sched r) iv'))
            \<or> stored_hash (state s) (Name c) \<noteq> Some ?h)" for iv'
    by (simp add: State_ShouldAlert_iff state_driven stored_hash_with_driver same)
  have again: "\<exists>r'. executeCheck (driven (sched r) iv') c iv' bm' cf' = Inr r'
                 \<and> CallSend (NewAlertFromResult (Name c) result' (now_alert iv')) \<in> set (trace r')"
    if elig: "\<not> lookup_fails (state s) \<or> lookup_fails (state (driven (sched r) iv'))"
      and run': "Run c (world iv') = Inr result'" and al: "ShouldAlert result'"
      and t: "Title result' = ATitle a" and m: "Message result' = AMessage a"
    for iv' result' bm' cf'
  proof -
    from elig now
    have "lookup_fails (state (driven (sched r) iv'))
            \<or> stored_hash (state s) (Name c) \<noteq> Some ?h"
      by blast
    then have "fst (State_ShouldAlert (state (driven (sched r) iv')) (Name c) ?h)"
      by (simp only: next_lookup)
    then have new: "fst (State_ShouldAlert (state (driven (sched r) iv')) (Name c)
                      (Hash (Title result') (Message result')))"
      by (simp only: t m)
    show ?thesis
    proof (cases "Notifier_Send (notifier (driven (sched r) iv')) (world iv')
                    (NewAlertFromResult (Name c) result' (now_alert iv'))")
      case None
      from executeCheck_sent [OF run' al new None, of bm' cf'] show ?thesis
        by simp
    next
      case (Some e)
      from executeCheck_send_failed [OF run' al new Some, of bm' cf'] show ?thesis
        by simp
    qed
  qed
  from same nomark next_lookup again show ?thesis
    by blast
qed

text \<open>
  The transport of \<open>site-up\<close> is down while the site is down, on an SQLite store without
  records: the alert stays eligible, whether the next lookup fails or is answered.
\<close>

theorem failed_Send_records_nothing_witness:
  "executeCheck (sched_with ntfy_down (db_with Map.empty None None)) site_up
     (at_zero (Inr site_down)) 1 0
     = Inr \<lparr>sched = sched_with ntfy_down (db_with Map.empty None None),
            backoffMultiplier = 1, consecutiveFailures = 0,
            trace = [LogRunning ''site-up'', CallRun ''site-up'',
                     CallShouldAlert ''site-up'' (Hash ''Site Down'' ''X is not responding''),
                     CallSend (NewAlertFromResult ''site-up'' site_down 0),
                     LogNotifyError ''site-up'' (ErrorString ''ntfy returned status 503'')]\<rparr>
   \<and> fst (State_ShouldAlert (db_with Map.empty (Some locked) None) ''site-up''
            (Hash ''Site Down'' ''X is not responding''))
   \<and> fst (State_ShouldAlert (db_with Map.empty None None) ''site-up''
            (Hash ''Site Down'' ''X is not responding''))"
proof -
  let ?s = "sched_with ntfy_down (db_with Map.empty None None)
            :: (error + CheckResult) Scheduler"
  let ?iv = "at_zero (Inr site_down) :: (error + CheckResult) invocation"
  let ?r = "\<lparr>sched = ?s,
            backoffMultiplier = 1, consecutiveFailures = 0,
            trace = [LogRunning ''site-up'', CallRun ''site-up'',
                     CallShouldAlert ''site-up'' (Hash ''Site Down'' ''X is not responding''),
                     CallSend (NewAlertFromResult ''site-up'' site_down 0),
                     LogNotifyError ''site-up'' (ErrorString ''ntfy returned status 503'')]\<rparr>"
  have run: "executeCheck ?s site_up ?iv 1 0 = Inr ?r"
    by (simp add: run_defs store_defs example_defs)
  have sent: "CallSend (NewAlertFromResult ''site-up'' site_down 0) \<in> set (trace ?r)"
    by simp
  have fails: "Notifier_Send (notifier ?s) (world ?iv)
                 (NewAlertFromResult ''site-up'' site_down 0)
               = Some (ErrorString ''ntfy returned status 503'')"
    by (simp add: example_defs)
  note inst = failed_Send_records_nothing [OF run sent fails]
  from inst have lookups:
    "\<forall>iv'. fst (State_ShouldAlert
                  (state (driven (sched ?r) (iv' :: (error + CheckResult) invocation)))
                  (Name site_up)
                  (Hash (ATitle (NewAlertFromResult ''site-up'' site_down 0))
                        (AMessage (NewAlertFromResult ''site-up'' site_down 0))))
            \<longleftrightarrow> (lookup_fails (state (driven (sched ?r) iv'))
                 \<or> stored_hash (state ?s) (Name site_up)
                      \<noteq> Some (Hash (ATitle (NewAlertFromResult ''site-up'' site_down 0))
                                    (AMessage (NewAlertFromResult ''site-up'' site_down 0))))"
    by blast
  from lookups [rule_format, of "at_zero_answering (Inr site_down) (Some locked) None"]
  have locked_next: "fst (State_ShouldAlert (db_with Map.empty (Some locked) None) ''site-up''
                            (Hash ''Site Down'' ''X is not responding''))"
    by (simp add: example_defs driven_def with_driver_def NewAlertFromResult_def
        lookup_fails_def stored_hash_def)
  from lookups [rule_format, of "at_zero (Inr site_down)"]
  have answered_next: "fst (State_ShouldAlert (db_with Map.empty None None) ''site-up''
                              (Hash ''Site Down'' ''X is not responding''))"
    by (simp add: example_defs driven_def with_driver_def NewAlertFromResult_def
        lookup_fails_def stored_hash_def)
  from run locked_next answered_next show ?thesis
    by simp
qed

text \<open>
  C6 as stated fails on the SQLite store: the store holds a record of the condition, the
  lookup fails open and \<open>Send\<close> returns an error; the store is unchanged, and at the next
  occurrence the lookup is answered and the same condition hash is a duplicate.
\<close>

theorem recorded_condition_suppressed_after_failed_Send:
  "runCheck
     (sched_with ntfy_down
        (db_with [''site-up'' \<mapsto> (Hash ''Site Down'' ''X is not responding'', 0)] None None))
     site_up
     (at_zero_answering (Inr site_down) (Some locked) None)
     [at_zero (Inr site_down)]
   = Inr \<lparr>sched = sched_with ntfy_down
                (db_with [''site-up'' \<mapsto> (Hash ''Site Down'' ''X is not responding'', 0)]
                   None None),
          backoffMultiplier = 1, consecutiveFailures = 0,
          trace = [LogRunning ''site-up'', CallRun ''site-up'',
                   CallShouldAlert ''site-up'' (Hash ''Site Down'' ''X is not responding''),
                   CallSend (NewAlertFromResult ''site-up'' site_down 0),
                   LogNotifyError ''site-up'' (ErrorString ''ntfy returned status 503''),
                   Wait time_Minute,
                   LogRunning ''site-up'', CallRun ''site-up'',
                   CallShouldAlert ''site-up'' (Hash ''Site Down'' ''X is not responding''),
                   LogDuplicate ''site-up'',
                   Cancelled]\<rparr>"
  by (simp add: runCheck_def run_defs store_defs nextInterval_def go_lt_def
      maxBackoffDuration_def time_Hour_def time_Minute_def example_defs)

section \<open>A resolved condition clears the record (C7)\<close>




section \<open>An execution error touches no alert state (C8)\<close>

text \<open>
  C8 at a failing input. The 63rd failure in a row finds the multiplier at 32 and the count
  at 62; the code increments the count, leaves the store alone and calls neither the store
  nor the notifier, but it lowers the multiplier to the least 64-bit integer, where the
  claim has it raised.
\<close>

theorem multiplier_lowered_by_63rd_failure:
  "executeCheck (sched_with stdout (MemoryState NewMemory)) site_up failing 32 62
   = Inr \<lparr>sched = sched_with stdout (MemoryState NewMemory),
          backoffMultiplier = 9223372036854775808,
          consecutiveFailures = 63,
          trace = [LogRunning ''site-up'', CallRun ''site-up'',
                   LogCheckError ''site-up'' 9223372036854775808 probe_timeout]\<rparr>
   \<and> sint (9223372036854775808 :: go_int) = - 9223372036854775808"
  by (simp add: run_defs go_shl_def go_min_def go_lt_def maxBackoffMultiplier_def failing_def
      example_defs)

section \<open>The fan-out notifier (C9)\<close>

text \<open>
  C9. For every list of underlying notifiers and every alert, \<open>Multi.Send\<close> calls the
  \<open>Send\<close> of every underlying notifier exactly once, in order, whatever the earlier ones
  returned; it returns \<open>nil\<close> if and only if all of them succeed, and otherwise a
  \<open>MultiError\<close> that lists one entry per failed notifier.
\<close>

theorem Multi_Send_fans_out:
  "snd (Multi_Send ns w alert) = map (\<lambda>n. (Notifier_Name n, alert)) ns
   \<and> (fst (Multi_Send ns w alert) = None \<longleftrightarrow> (\<forall>n \<in> set ns. Notifier_Send n w alert = None))
   \<and> (fst (Multi_Send ns w alert) = None
        \<or> fst (Multi_Send ns w alert) = Some (MultiError (failed_transports ns w alert)))
   \<and> length (failed_transports ns w alert)
        = length (filter (\<lambda>n. Notifier_Send n w alert \<noteq> None) ns)"
  using failed_transports_Nil [of ns w alert]
  by (auto simp add: Multi_Send_def Multi_Send_loop_eq failed_transports_length)

text \<open>Three transports of which the first and the last are down, and two that are up.\<close>

theorem Multi_Send_fans_out_witness:
  "Multi_Send [ntfy_down, stdout, ntfy_down] () (NewAlertFromResult ''site-up'' site_down 7)
   = (Some (MultiError [Errorf ''ntfy'' (ErrorString ''ntfy returned status 503''),
                        Errorf ''ntfy'' (ErrorString ''ntfy returned status 503'')]),
      [(''ntfy'', NewAlertFromResult ''site-up'' site_down 7),
       (''stdout'', NewAlertFromResult ''site-up'' site_down 7),
       (''ntfy'', NewAlertFromResult ''site-up'' site_down 7)])
   \<and> fst (Multi_Send [stdout, stdout] () (NewAlertFromResult ''site-up'' site_down 7)) = None"
  using Multi_Send_fans_out [of "[ntfy_down, stdout, ntfy_down]" "()" "NewAlertFromResult ''site-up'' site_down 7"]
        Multi_Send_fans_out [of "[stdout, stdout]" "()" "NewAlertFromResult ''site-up'' site_down 7"]
  by (simp add: Multi_Send_def failed_transports_def ntfy_down_def stdout_def)

section \<open>The hash sees only the concatenation (C10)\<close>

text \<open>
  C10. \<open>Hash\<close> writes title and message to the digest with nothing between them: whenever
  \<open>t1 @ m1 = t2 @ m2\<close> the two hashes are equal, no store can tell the two conditions
  apart, and once one of them is marked as alerted the other is a duplicate.
\<close>

theorem Hash_bare_concatenation:
  assumes "t1 @ m1 = t2 @ m2"
  shows "Hash t1 m1 = Hash t2 m2
     \<and> State_ShouldAlert st n (Hash t1 m1) = State_ShouldAlert st n (Hash t2 m2)
     \<and> \<not> fst (Memory_ShouldAlert (snd (Memory_MarkAlerted m n (Hash t1 m1) now)) n (Hash t2 m2))"
proof -
  have "Hash t1 m1 = Hash t2 m2"
    using assms by (simp only: Hash_concat)
  then show ?thesis
    by (simp add: Memory_ShouldAlert_def Memory_MarkAlerted_def)
qed

text \<open>Two ways to split one text into title and message.\<close>

theorem Hash_bare_concatenation_witness:
  "''Disk full'' @ ''on db1'' = ''Disk'' @ '' fullon db1''
   \<and> Hash ''Disk full'' ''on db1'' = Hash ''Disk'' '' fullon db1''
   \<and> \<not> fst (Memory_ShouldAlert
             (snd (Memory_MarkAlerted NewMemory ''disk'' (Hash ''Disk full'' ''on db1'') 3))
             ''disk'' (Hash ''Disk'' '' fullon db1''))"
  using Hash_bare_concatenation [of "''Disk full''" "''on db1''" "''Disk''" "'' fullon db1''"
          "MemoryState NewMemory" "''disk''" NewMemory 3]
  by (simp add: Memory_ShouldAlert_def Memory_MarkAlerted_def)

end
